theory Spec2Isabelle
  imports Main "HOL-Library.Sublist" "HOL-Library.Code_Target_Nat"
begin

section \<open>A Munin node in Go: the plugin pipeline of munin-node.go\<close>

text \<open>
  Go strings are byte sequences; they are modelled as \<^typ>\<open>string\<close>, one
  \<^typ>\<open>char\<close> per byte. The functions of Go's standard library that the program
  calls (packages strings, path/filepath, bufio, os, os/exec, regexp) are not part of
  the repository: the pure ones are modelled below from their documented behaviour on a
  Unix system, under the name of the Go function with the dot replaced by an underscore;
  the file system, the working directory, the plugin programs and the regular-expression
  matcher are parameters of the model. Log output through \<open>slog\<close> is not modelled.
\<close>

subsection \<open>Package strings\<close>

definition NL :: char where
  "NL = CHR 0x0A"

definition strings_HasPrefix :: "string \<Rightarrow> string \<Rightarrow> bool" where
  "strings_HasPrefix s pre = prefix pre s"

definition strings_HasSuffix :: "string \<Rightarrow> string \<Rightarrow> bool" where
  "strings_HasSuffix s suf = suffix suf s"

definition strings_TrimPrefix :: "string \<Rightarrow> string \<Rightarrow> string" where
  "strings_TrimPrefix s pre = (if strings_HasPrefix s pre then drop (length pre) s else s)"

text \<open>\<open>strings.Split(s, sep)\<close> for a separator of one byte: the result is never empty,
  and \<open>k\<close> separators give \<open>k + 1\<close> pieces.\<close>

fun split_byte :: "char \<Rightarrow> string \<Rightarrow> string list" where
  "split_byte c [] = [[]]"
| "split_byte c (x # xs) =
     (if x = c then [] # split_byte c xs
      else (let r = split_byte c xs in (x # hd r) # tl r))"

definition strings_Split :: "string \<Rightarrow> char \<Rightarrow> string list" where
  "strings_Split s sep = split_byte sep s"

fun strings_Join :: "string list \<Rightarrow> string \<Rightarrow> string" where
  "strings_Join [] sep = []"
| "strings_Join [x] sep = x"
| "strings_Join (x # y # ys) sep = x @ sep @ strings_Join (y # ys) sep"

text \<open>\<open>strings.SplitN(s, sep, 2)\<close> for a separator of one byte: the string is cut at the
  first separator, and is returned whole, as the only piece, when it has none.\<close>

definition strings_SplitN2 :: "string \<Rightarrow> char \<Rightarrow> string list" where
  "strings_SplitN2 s sep =
     (if sep \<in> set s
      then [takeWhile (\<lambda>c. c \<noteq> sep) s, tl (dropWhile (\<lambda>c. c \<noteq> sep) s)]
      else [s])"

text \<open>
  White space as \<open>unicode.IsSpace\<close> defines it, in UTF-8: the ASCII bytes
  \<open>\t \n \v \f \r\<close> and space, U+0085, U+00A0, U+1680, U+2000 to U+200A, U+2028,
  U+2029, U+202F, U+205F and U+3000. None of these encodings starts with a continuation
  byte, so the decoder of Go reads a white-space rune exactly where one of them occurs.
\<close>

definition space_encodings :: "string list" where
  "space_encodings =
     [[CHR 0x09], [CHR 0x0A], [CHR 0x0B], [CHR 0x0C], [CHR 0x0D], [CHR 0x20],
      [CHR 0xC2, CHR 0x85], [CHR 0xC2, CHR 0xA0],
      [CHR 0xE1, CHR 0x9A, CHR 0x80],
      [CHR 0xE2, CHR 0x80, CHR 0x80], [CHR 0xE2, CHR 0x80, CHR 0x81],
      [CHR 0xE2, CHR 0x80, CHR 0x82], [CHR 0xE2, CHR 0x80, CHR 0x83],
      [CHR 0xE2, CHR 0x80, CHR 0x84], [CHR 0xE2, CHR 0x80, CHR 0x85],
      [CHR 0xE2, CHR 0x80, CHR 0x86], [CHR 0xE2, CHR 0x80, CHR 0x87],
      [CHR 0xE2, CHR 0x80, CHR 0x88], [CHR 0xE2, CHR 0x80, CHR 0x89],
      [CHR 0xE2, CHR 0x80, CHR 0x8A], [CHR 0xE2, CHR 0x80, CHR 0xA8],
      [CHR 0xE2, CHR 0x80, CHR 0xA9], [CHR 0xE2, CHR 0x80, CHR 0xAF],
      [CHR 0xE2, CHR 0x81, CHR 0x9F], [CHR 0xE3, CHR 0x80, CHR 0x80]]"

text \<open>The number of bytes of the white-space rune at the start of a string, 0 when
  the string does not start with one; and the same at its end.\<close>

definition leading_space :: "string \<Rightarrow> nat" where
  "leading_space s =
     (case find (\<lambda>e. prefix e s) space_encodings of None \<Rightarrow> 0 | Some e \<Rightarrow> length e)"

definition trailing_space :: "string \<Rightarrow> nat" where
  "trailing_space s =
     (case find (\<lambda>e. suffix e s) space_encodings of None \<Rightarrow> 0 | Some e \<Rightarrow> length e)"

lemma leading_space_le: "leading_space s \<le> length s"
  by (auto simp: leading_space_def find_Some_iff prefix_length_le split: option.splits)

lemma trailing_space_le: "trailing_space s \<le> length s"
  by (auto simp: trailing_space_def find_Some_iff suffix_length_le split: option.splits)

function trim_left :: "string \<Rightarrow> string" where
  "trim_left s = (if leading_space s = 0 then s else trim_left (drop (leading_space s) s))"
  by pat_completeness auto

termination trim_left
proof (relation "measure length")
  fix s assume "leading_space s \<noteq> 0"
  moreover have "leading_space s \<le> length s" by (rule leading_space_le)
  ultimately show "(drop (leading_space s) s, s) \<in> measure length" by simp
qed simp

function trim_right :: "string \<Rightarrow> string" where
  "trim_right s =
     (if trailing_space s = 0 then s else trim_right (take (length s - trailing_space s) s))"
  by pat_completeness auto

termination trim_right
proof (relation "measure length")
  fix s assume "trailing_space s \<noteq> 0"
  moreover have "trailing_space s \<le> length s" by (rule trailing_space_le)
  ultimately show "(take (length s - trailing_space s) s, s) \<in> measure length" by simp
qed simp

declare trim_left.simps [simp del] trim_right.simps [simp del]

definition strings_TrimSpace :: "string \<Rightarrow> string" where
  "strings_TrimSpace s = trim_right (trim_left s)"

text \<open>\<open>strings.Fields\<close>: the maximal runs of bytes between white-space runes. The
  first argument is the field read so far.\<close>

function fields_from :: "string \<Rightarrow> string \<Rightarrow> string list" where
  "fields_from cur [] = (if cur = [] then [] else [cur])"
| "fields_from cur (c # cs) =
     (if leading_space (c # cs) = 0 then fields_from (cur @ [c]) cs
      else (if cur = [] then [] else [cur]) @ fields_from [] (drop (leading_space (c # cs)) (c # cs)))"
  by pat_completeness auto

termination fields_from
proof (relation "measure (\<lambda>(cur, s). length s)")
  fix cur :: string and c cs
  assume "leading_space (c # cs) \<noteq> 0"
  then show "(([], drop (leading_space (c # cs)) (c # cs)), (cur, c # cs))
               \<in> measure (\<lambda>(cur, s). length s)"
    by simp
qed simp_all

definition strings_Fields :: "string \<Rightarrow> string list" where
  "strings_Fields s = fields_from [] s"

subsection \<open>The candidate sections of a plugin\<close>

text \<open>The loop \<open>for i := len(parts); i > 0; i--\<close> of \<open>generatePossibleSections\<close>.\<close>

fun sections_loop :: "string list \<Rightarrow> nat \<Rightarrow> string list \<Rightarrow> string list" where
  "sections_loop parts 0 sections = sections"
| "sections_loop parts (Suc i) sections =
     sections_loop parts i (sections @ [strings_Join (take (Suc i) parts) ''_'' @ ''_*''])"

definition generatePossibleSections :: "string \<Rightarrow> string list" where
  "generatePossibleSections plugin =
     (let sections = [] @ [''*''];
          parts = strings_Split plugin CHR ''_''
      in sections_loop parts (length parts) sections)"

subsection \<open>Package path/filepath on Unix\<close>

text \<open>\<open>filepath.Clean\<close> reads the elements of the path from left to right and keeps
  the elements of the result: an empty element and \<open>.\<close> are dropped, \<open>..\<close> removes the
  element before it when that is not \<open>..\<close> itself, is kept in a relative path with
  nothing to remove, and is dropped at the root.\<close>

fun clean_elems :: "bool \<Rightarrow> string list \<Rightarrow> string list \<Rightarrow> string list" where
  "clean_elems rooted [] out = out"
| "clean_elems rooted (e # es) out =
     (if e = [] \<or> e = ''.'' then clean_elems rooted es out
      else if e = ''..'' then
        (if out \<noteq> [] \<and> last out \<noteq> ''..'' then clean_elems rooted es (butlast out)
         else if \<not> rooted then clean_elems rooted es (out @ [''..''])
         else clean_elems rooted es out)
      else clean_elems rooted es (out @ [e]))"

definition filepath_Clean :: "string \<Rightarrow> string" where
  "filepath_Clean path =
     (if path = [] then ''.''
      else (let rooted = (hd path = CHR ''/'');
                out = clean_elems rooted (strings_Split path CHR ''/'') []
            in if rooted then ''/'' @ strings_Join out ''/''
               else if out = [] then ''.'' else strings_Join out ''/''))"

text \<open>\<open>filepath.Join\<close> skips the empty elements at the front, joins the rest with
  a separator and cleans the result; it is the empty string when every element is.\<close>

definition filepath_Join :: "string list \<Rightarrow> string" where
  "filepath_Join elem =
     (case dropWhile (\<lambda>e. e = []) elem of
        [] \<Rightarrow> []
      | e # es \<Rightarrow> filepath_Clean (strings_Join (e # es) ''/''))"

definition filepath_IsAbs :: "string \<Rightarrow> bool" where
  "filepath_IsAbs path = strings_HasPrefix path ''/''"

text \<open>\<open>filepath.Abs\<close>; its first argument is what \<open>os.Getwd\<close> returns, \<open>None\<close> when
  that fails.\<close>

definition filepath_Abs :: "string option \<Rightarrow> string \<Rightarrow> string option" where
  "filepath_Abs getwd path =
     (if filepath_IsAbs path then Some (filepath_Clean path)
      else (case getwd of None \<Rightarrow> None | Some wd \<Rightarrow> Some (filepath_Join [wd, path])))"

subsection \<open>Package bufio: a Scanner that splits lines\<close>

definition dropCR :: "string \<Rightarrow> string" where
  "dropCR data = (if data \<noteq> [] \<and> last data = CHR 0x0D then butlast data else data)"

text \<open>The lines a Scanner with the buffer limit \<open>maxTokenSize\<close> delivers from the bytes
  \<open>data\<close>, and whether it stopped with \<open>ErrTooLong\<close>: it does when \<open>maxTokenSize\<close> bytes
  fill the buffer without a newline.\<close>

function scan_lines :: "nat \<Rightarrow> string \<Rightarrow> string list \<times> bool" where
  "scan_lines maxTokenSize data =
     (if data = [] then ([], False)
      else (let line = takeWhile (\<lambda>c. c \<noteq> NL) data in
            if maxTokenSize \<le> length line then ([], True)
            else if length line = length data then ([dropCR line], False)
            else (let (lines, err) =
                        scan_lines maxTokenSize (drop (Suc (length line)) data)
                  in (dropCR line # lines, err))))"
  by pat_completeness auto

termination scan_lines
  by (relation "measure (\<lambda>(m, data). length data)") auto

declare scan_lines.simps [simp del]

definition MaxScanTokenSize :: nat where
  "MaxScanTokenSize = 64 * 1024"

subsection \<open>The node's configuration, the system it runs on and the process\<close>

record NodeConfig =
  HostName :: string
  AllowedIPs :: "string list"
  Host :: string
  Port :: string
  PluginFolder :: string
  PluginConfig :: string

text \<open>What \<open>os.Lstat\<close> and \<open>ioutil.ReadDir\<close> tell about a file: \<open>IsSymlink\<close> is
  \<open>Mode()&os.ModeSymlink != 0\<close>.\<close>

record FileInfo =
  Name :: string
  IsDir :: bool
  IsSymlink :: bool

text \<open>
  The system calls of the program, which the program does not change:
  \<^item> \<open>os_Getwd\<close>: the working directory, \<open>None\<close> when it cannot be read;
  \<^item> \<open>os_Lstat\<close>: the file at a path, links not followed, \<open>None\<close> on an error;
  \<^item> \<open>os_Open\<close>: \<open>None\<close> when the file cannot be opened, else the bytes that can
    be read from it and whether reading ends with an error instead of the end of file;
  \<^item> \<open>ioutil_ReadDir\<close>: the entries of a directory, sorted by name;
  \<^item> \<open>exec_Output\<close>: the standard output of the command \<open>exec.Command(name, arg)\<close>
    run in the given environment, \<open>None\<close> when it cannot be started or exits with a
    status other than 0.
\<close>

record os =
  os_Getwd :: "string option"
  os_Lstat :: "string \<Rightarrow> FileInfo option"
  os_Open :: "string \<Rightarrow> (string \<times> bool) option"
  ioutil_ReadDir :: "string \<Rightarrow> FileInfo list option"
  exec_Output :: "string \<Rightarrow> string \<Rightarrow> (string \<rightharpoonup> string) \<Rightarrow> string option"

text \<open>The state of the node's process that plugin execution touches: the environment
  table of the process, which \<open>os.Setenv\<close> writes and every subprocess inherits, and the
  commands handed to \<open>exec\<close> so far. The functions below take this state and return
  it, one invocation after the other; the node serves each connection in a goroutine of
  its own, and how the writes of two invocations interleave in the one table is not
  modelled.\<close>

record process =
  environ :: "string \<rightharpoonup> string"
  spawned :: "(string \<times> string) list"

datatype error =
    AbsPluginError
  | AbsFolderError
  | OutsideFolder string
  | LstatError
  | SymlinkError string
  | AbsConfigError
  | OpenError
  | InvalidFormat string
  | SetenvError
  | ReadError
  | ExecError

text \<open>\<open>os.Setenv\<close> refuses an empty key, a key with \<open>=\<close> or a NUL byte and a value with
  a NUL byte.\<close>

definition os_Setenv ::
  "string \<Rightarrow> string \<Rightarrow> (string \<rightharpoonup> string) \<Rightarrow> (string \<rightharpoonup> string) option" where
  "os_Setenv key val env =
     (if key = [] \<or> CHR ''='' \<in> set key \<or> CHR 0x00 \<in> set key \<or> CHR 0x00 \<in> set val
      then None else Some (env(key \<mapsto> val)))"

subsection \<open>validatePluginPath\<close>

definition validatePluginPath :: "NodeConfig \<Rightarrow> os \<Rightarrow> string \<Rightarrow> error option" where
  "validatePluginPath nodeConf sys pluginPath =
     (case filepath_Abs (os_Getwd sys) pluginPath of
        None \<Rightarrow> Some AbsPluginError
      | Some absPluginPath \<Rightarrow>
          (case filepath_Abs (os_Getwd sys) (PluginFolder nodeConf) of
             None \<Rightarrow> Some AbsFolderError
           | Some absAllowedDir \<Rightarrow>
               if \<not> strings_HasPrefix absPluginPath absAllowedDir
               then Some (OutsideFolder absAllowedDir)
               else (case os_Lstat sys absPluginPath of
                       None \<Rightarrow> Some LstatError
                     | Some fileInfo \<Rightarrow>
                         if IsSymlink fileInfo then Some (SymlinkError absPluginPath)
                         else None)))"

subsection \<open>loadPluginConfig\<close>

text \<open>The inner loop over \<open>possibleSections\<close>: the new value of \<open>currentSection\<close>.\<close>

fun section_loop :: "string list \<Rightarrow> string \<Rightarrow> string \<Rightarrow> string" where
  "section_loop [] section currentSection = currentSection"
| "section_loop (sec # secs) section currentSection =
     (if section = sec then section else section_loop secs section currentSection)"

text \<open>The body of the loop over the lines of the file: \<open>Inl\<close> is the error the function
  returns with, \<open>Inr\<close> the value of \<open>currentSection\<close> for the next line. The process is
  returned with the environment as \<open>os.Setenv\<close> has left it.\<close>

definition config_line ::
  "string list \<Rightarrow> string \<Rightarrow> string \<Rightarrow> process \<Rightarrow> (error + string) \<times> process" where
  "config_line possibleSections text currentSection p =
     (let line = strings_TrimSpace text in
      if line = [] \<or> strings_HasPrefix line ''#'' then (Inr currentSection, p)
      else if strings_HasPrefix line ''['' \<and> strings_HasSuffix line '']'' then
        (let section = butlast (tl line)
         in (Inr (section_loop possibleSections section currentSection), p))
      else if currentSection \<noteq> [] \<and> strings_HasPrefix line ''env.'' then
        (let parts = strings_SplitN2 line CHR '' '' in
         if length parts \<noteq> 2 then (Inl (InvalidFormat line), p)
         else (let key = strings_TrimPrefix (parts ! 0) ''env.'';
                   val = strings_TrimSpace (parts ! 1)
               in case os_Setenv key val (environ p) of
                    None \<Rightarrow> (Inl SetenvError, p)
                  | Some env \<Rightarrow> (Inr currentSection, p\<lparr>environ := env\<rparr>)))
      else (Inr currentSection, p))"

fun config_loop ::
  "string list \<Rightarrow> string list \<Rightarrow> string \<Rightarrow> process \<Rightarrow> (error + string) \<times> process" where
  "config_loop possibleSections [] currentSection p = (Inr currentSection, p)"
| "config_loop possibleSections (text # rest) currentSection p =
     (case config_line possibleSections text currentSection p of
        (Inl err, p') \<Rightarrow> (Inl err, p')
      | (Inr section, p') \<Rightarrow> config_loop possibleSections rest section p')"

definition loadPluginConfig ::
  "NodeConfig \<Rightarrow> os \<Rightarrow> string \<Rightarrow> process \<Rightarrow> error option \<times> process" where
  "loadPluginConfig nodeConf sys plugin p =
     (case filepath_Abs (os_Getwd sys) (PluginConfig nodeConf) of
        None \<Rightarrow> (Some AbsConfigError, p)
      | Some absPluginConf \<Rightarrow>
          (case os_Open sys absPluginConf of
             None \<Rightarrow> (Some OpenError, p)
           | Some (data, read_err) \<Rightarrow>
               (let (lines, too_long) = scan_lines MaxScanTokenSize data;
                    possibleSections = generatePossibleSections plugin
                in case config_loop possibleSections lines [] p of
                     (Inl err, p') \<Rightarrow> (Some err, p')
                   | (Inr section, p') \<Rightarrow>
                       if too_long \<or> read_err then (Some ReadError, p') else (None, p'))))"

subsection \<open>executePlugin\<close>

definition executePlugin ::
  "NodeConfig \<Rightarrow> os \<Rightarrow> string \<Rightarrow> string \<Rightarrow> process \<Rightarrow> (error + string) \<times> process" where
  "executePlugin nodeConf sys plugin option p =
     (let pluginPath = filepath_Join [PluginFolder nodeConf, plugin] in
      case validatePluginPath nodeConf sys pluginPath of
        Some err \<Rightarrow> (Inl err, p)
      | None \<Rightarrow>
          (case loadPluginConfig nodeConf sys plugin p of
             (Some err, p') \<Rightarrow> (Inl err, p')
           | (None, p') \<Rightarrow>
               (let p'' = p'\<lparr>spawned := spawned p' @ [(pluginPath, option)]\<rparr> in
                case exec_Output sys pluginPath option (environ p') of
                  None \<Rightarrow> (Inl ExecError, p'')
                | Some output \<Rightarrow> (Inr output, p''))))"

subsection \<open>isAllowedIP\<close>

text \<open>\<open>regexp.MatchString\<close> is the parameter \<open>regexp_MatchString\<close>: \<open>Inl\<close> with the
  error of a pattern that does not compile, else whether the pattern matches somewhere
  in the string. The second component of the result is what the function prints.\<close>

fun isAllowedIP ::
  "(string \<Rightarrow> string \<Rightarrow> string + bool) \<Rightarrow> string \<Rightarrow> string list \<Rightarrow> bool \<times> string list" where
  "isAllowedIP regexp_MatchString clientIP [] = (False, [])"
| "isAllowedIP regexp_MatchString clientIP (pattern # allowedPatterns) =
     (case regexp_MatchString pattern clientIP of
        Inl err \<Rightarrow>
          (let (allowed, printed) = isAllowedIP regexp_MatchString clientIP allowedPatterns
           in (allowed, (''Error in IP permission template: '' @ err @ [NL]) # printed))
      | Inr match \<Rightarrow>
          if match then (True, [])
          else isAllowedIP regexp_MatchString clientIP allowedPatterns)"

subsection \<open>listPlugins\<close>

fun plugins_loop :: "FileInfo list \<Rightarrow> string list \<Rightarrow> string list" where
  "plugins_loop [] plugins = plugins"
| "plugins_loop (file # files) plugins =
     plugins_loop files (if \<not> IsDir file then plugins @ [Name file] else plugins)"

definition listPlugins :: "NodeConfig \<Rightarrow> os \<Rightarrow> string" where
  "listPlugins nodeConf sys =
     (case ioutil_ReadDir sys (PluginFolder nodeConf) of
        None \<Rightarrow> []
      | Some files \<Rightarrow> strings_Join (plugins_loop files []) '' '' @ [NL])"

subsection \<open>handleConnection\<close>

definition lineMax :: nat where
  "lineMax = 2048"

definition version :: string where
  "version = ''1.0.6-go''"

definition unknown_command :: string where
  "unknown_command =
     ''# Unknown command. Try cap, list, nodes, config, fetch, version or quit''"

text \<open>\<open>fmt.Fprintln\<close> writes its argument and a newline.\<close>

definition Fprintln :: "string \<Rightarrow> string" where
  "Fprintln a = a @ [NL]"

text \<open>The body of the loop over the lines of a connection: what is written to the
  connection, \<open>None\<close> when the handler returns (on \<open>quit\<close>).\<close>

definition handleCommand ::
  "NodeConfig \<Rightarrow> os \<Rightarrow> string \<Rightarrow> process \<Rightarrow> string option \<times> process" where
  "handleCommand nodeConf sys line p =
     (let parts = strings_Fields line in
      if length parts = 0 then (Some (Fprintln unknown_command), p)
      else
        (let cmd = parts ! 0;
             arg = (if length parts > 1 then parts ! 1 else [])
         in if cmd = ''cap'' then (Some (Fprintln ''cap multigraph''), p)
            else if cmd = ''version'' then
              (Some (''munin node version: '' @ version @ [NL]), p)
            else if cmd = ''nodes'' then
              (Some (HostName nodeConf @ [NL] @ ''.'' @ [NL]), p)
            else if cmd = ''list'' then (Some (Fprintln (listPlugins nodeConf sys)), p)
            else if cmd = ''config'' then
              (if length cmd > 1 then
                 (case executePlugin nodeConf sys arg ''config'' p of
                    (Inl err, p') \<Rightarrow> (Some (Fprintln (''# Unknown service'' @ [NL] @ ''.'')), p')
                  | (Inr output, p') \<Rightarrow> (Some (output @ Fprintln ''.''), p'))
               else (Some (Fprintln (''# Unknown service'' @ [NL] @ ''.'' @ [NL])), p))
            else if cmd = ''fetch'' then
              (if length cmd > 1 then
                 (case executePlugin nodeConf sys arg [] p of
                    (Inl err, p') \<Rightarrow> (Some (Fprintln (''# Unknown service'' @ [NL] @ ''.'')), p')
                  | (Inr output, p') \<Rightarrow> (Some (output @ Fprintln ''.''), p'))
               else (Some (Fprintln (''# Unknown service'' @ [NL] @ ''.'' @ [NL])), p))
            else if cmd = ''quit'' then (None, p)
            else (Some (Fprintln unknown_command), p)))"

fun command_loop ::
  "NodeConfig \<Rightarrow> os \<Rightarrow> string list \<Rightarrow> process \<Rightarrow> string \<times> process" where
  "command_loop nodeConf sys [] p = ([], p)"
| "command_loop nodeConf sys (line # rest) p =
     (case handleCommand nodeConf sys line p of
        (None, p') \<Rightarrow> ([], p')
      | (Some written, p') \<Rightarrow>
          (let (more, p'') = command_loop nodeConf sys rest p' in (written @ more, p'')))"

text \<open>A whole connection: the bytes the client sends, and the bytes written back.\<close>

definition handleConnection ::
  "NodeConfig \<Rightarrow> os \<Rightarrow> string \<Rightarrow> process \<Rightarrow> string \<times> process" where
  "handleConnection nodeConf sys input p =
     (let banner = ''# munin node at '' @ HostName nodeConf @ [NL];
          (lines, err) = scan_lines lineMax input;
          (written, p') = command_loop nodeConf sys lines p
      in (banner @ written, p'))"

text \<open>A reply ends with a line that holds only a dot: it ends with a newline, and the
  last of its lines is \<open>.\<close>.\<close>

definition ends_with_dot_line :: "string \<Rightarrow> bool" where
  "ends_with_dot_line reply =
     (reply \<noteq> [] \<and> last reply = NL \<and> last (strings_Split (butlast reply) NL) = ''.'')"

subsection \<open>The errors of path validation\<close>

text \<open>The errors \<open>validatePluginPath\<close> returns: the spec's PathSecurityError.\<close>

fun PathSecurityError :: "error \<Rightarrow> bool" where
  "PathSecurityError AbsPluginError = True"
| "PathSecurityError AbsFolderError = True"
| "PathSecurityError (OutsideFolder dir) = True"
| "PathSecurityError LstatError = True"
| "PathSecurityError (SymlinkError path) = True"
| "PathSecurityError err = False"

subsection \<open>A system to run the model on\<close>

text \<open>A node with the plugin directory \<open>/plugins\<close> and a file \<open>x\<close> in the sibling
  directory \<open>/plugins-evil\<close>; the argument is the content of the plugin-configuration
  file. The plugins \<open>cpu\<close>, \<open>memory\<close> and \<open>*\<close> print the value of the variable \<open>A\<close>
  of their environment, the plugin \<open>raw\<close> prints a line without its newline, and
  \<open>link\<close> is a symbolic link.\<close>

definition regular_file :: "string \<Rightarrow> FileInfo" where
  "regular_file name = \<lparr>Name = name, IsDir = False, IsSymlink = False\<rparr>"

definition example_conf :: NodeConfig where
  "example_conf =
     \<lparr>HostName = ''node1'', AllowedIPs = [''^127''], Host = [], Port = ''4949'',
      PluginFolder = ''/plugins'', PluginConfig = ''/etc/plugin.conf''\<rparr>"

definition example_os :: "string \<Rightarrow> os" where
  "example_os conf_data =
     \<lparr>os_Getwd = Some ''/'',
      os_Lstat = (\<lambda>path.
        if path = ''/plugins/cpu'' then Some (regular_file ''cpu'')
        else if path = ''/plugins/memory'' then Some (regular_file ''memory'')
        else if path = ''/plugins/*'' then Some (regular_file ''*'')
        else if path = ''/plugins/raw'' then Some (regular_file ''raw'')
        else if path = ''/plugins/link'' then
          Some \<lparr>Name = ''link'', IsDir = False, IsSymlink = True\<rparr>
        else if path = ''/plugins-evil/x'' then Some (regular_file ''x'')
        else None),
      os_Open = (\<lambda>path. if path = ''/etc/plugin.conf'' then Some (conf_data, False) else None),
      ioutil_ReadDir = (\<lambda>path.
        if path = ''/plugins'' then
          Some [regular_file ''*'', regular_file ''cpu'',
                \<lparr>Name = ''link'', IsDir = False, IsSymlink = True\<rparr>,
                regular_file ''memory'', regular_file ''raw'']
        else None),
      exec_Output = (\<lambda>name arg env.
        if name = ''/plugins/raw'' then Some ''load.value 1''
        else if name = ''/plugins-evil/x'' then Some (''outside'' @ [NL])
        else if name = ''/plugins/cpu'' \<or> name = ''/plugins/memory'' \<or> name = ''/plugins/*''
        then Some (''A='' @ (case env ''A'' of None \<Rightarrow> ''unset'' | Some v \<Rightarrow> v) @ [NL])
        else None)\<rparr>"

text \<open>A system whose plugin directory holds the files \<open>cpu\<close> and \<open>memory\<close> and
  nothing else.\<close>

definition two_plugins_os :: os where
  "two_plugins_os =
     \<lparr>os_Getwd = Some ''/'',
      os_Lstat = (\<lambda>path.
        if path = ''/plugins/cpu'' then Some (regular_file ''cpu'')
        else if path = ''/plugins/memory'' then Some (regular_file ''memory'')
        else None),
      os_Open = (\<lambda>path. None),
      ioutil_ReadDir = (\<lambda>path.
        if path = ''/plugins'' then Some [regular_file ''cpu'', regular_file ''memory'']
        else None),
      exec_Output = (\<lambda>name arg env. None)\<rparr>"

definition fresh :: process where
  "fresh = \<lparr>environ = Map.empty, spawned = []\<rparr>"

definition cpu_section :: string where
  "cpu_section = ''[cpu_*]'' @ [NL] @ ''env.A 1'' @ [NL]"

subsection \<open>What the access guard prints, and a matcher to run it with\<close>

text \<open>The messages \<open>isAllowedIP\<close> is to print: one for each pattern that does not
  compile among those before the first pattern that matches.\<close>

definition printed_errors ::
  "(string \<Rightarrow> string \<Rightarrow> string + bool) \<Rightarrow> string \<Rightarrow> string list \<Rightarrow> string list" where
  "printed_errors regexp_MatchString clientIP patterns =
     concat (map (\<lambda>pattern. case regexp_MatchString pattern clientIP of
                    Inl err \<Rightarrow> [''Error in IP permission template: '' @ err @ [NL]]
                  | Inr match \<Rightarrow> [])
              (takeWhile (\<lambda>pattern. regexp_MatchString pattern clientIP \<noteq> Inr True) patterns))"

text \<open>A matcher for running the guard: a pattern with an opening parenthesis does not
  compile, any other pattern matches the strings that contain it.\<close>

definition literal_match :: "string \<Rightarrow> string \<Rightarrow> string + bool" where
  "literal_match pattern s =
     (if CHR ''('' \<in> set pattern then Inl ''missing closing )'' else Inr (sublist pattern s))"

section \<open>Properties\<close>

subsection \<open>Splitting and joining\<close>

lemma split_byte_not_Nil: "split_byte c s \<noteq> []"
  by (induction s) (simp_all add: Let_def)

lemma join_split_byte: "strings_Join (split_byte c s) [c] = s"
proof (induction s)
  case Nil
  then show ?case by simp
next
  case (Cons x xs)
  obtain y ys where r: "split_byte c xs = y # ys"
    using split_byte_not_Nil [of c xs] by (cases "split_byte c xs") auto
  with Cons show ?case
    by (cases ys) (auto simp: Let_def)
qed

lemma split_byte_free: "t \<in> set (split_byte c s) \<Longrightarrow> c \<notin> set t"
proof (induction s arbitrary: t)
  case Nil
  then show ?case by simp
next
  case (Cons x xs)
  obtain y ys where r: "split_byte c xs = y # ys"
    using split_byte_not_Nil [of c xs] by (cases "split_byte c xs") auto
  with Cons show ?case
    by (auto simp: Let_def split: if_splits)
qed

subsection \<open>The candidate sections\<close>

lemma sections_loop_eq:
  "sections_loop parts i acc =
     acc @ map (\<lambda>j. strings_Join (take j parts) ''_'' @ ''_*'') (rev [1..<Suc i])"
  by (induction i arbitrary: acc) simp_all

text \<open>
  Claim C5. For a plugin name whose split at \<open>_\<close> has \<open>n\<close> tokens, the candidate
  sections are \<open>*\<close> first and then, for \<open>i\<close> from \<open>n\<close> down to 1, the first \<open>i\<close> tokens
  joined with \<open>_\<close> and followed by \<open>_*\<close>; for \<open>diskio_sda\<close> they are \<open>*\<close>,
  \<open>diskio_sda_*\<close> and \<open>diskio_*\<close>, in this order.
\<close>

theorem generatePossibleSections_candidates:
  "generatePossibleSections plugin =
     ''*'' # map (\<lambda>i. strings_Join (take i (strings_Split plugin CHR ''_'')) ''_'' @ ''_*'')
               (rev [1..<Suc (length (strings_Split plugin CHR ''_''))])
   \<and> generatePossibleSections ''diskio_sda'' = [''*'', ''diskio_sda_*'', ''diskio_*'']"
proof
  show "generatePossibleSections plugin =
     ''*'' # map (\<lambda>i. strings_Join (take i (strings_Split plugin CHR ''_'')) ''_'' @ ''_*'')
               (rev [1..<Suc (length (strings_Split plugin CHR ''_''))])"
    by (simp add: generatePossibleSections_def Let_def sections_loop_eq)
  show "generatePossibleSections ''diskio_sda'' = [''*'', ''diskio_sda_*'', ''diskio_*'']"
    by code_simp
qed

subsection \<open>Path validation\<close>

text \<open>
  Claim C3. When the candidate path of a plugin, made absolute, is a symbolic link for
  \<open>os.Lstat\<close> (which does not follow links), \<open>executePlugin\<close> fails with an error of
  path validation, whatever the link points to, and leaves the process as it was: no
  command is run and the environment is not touched.
\<close>

theorem executePlugin_symlink:
  assumes "filepath_Abs (os_Getwd sys) (filepath_Join [PluginFolder nodeConf, plugin])
             = Some absPluginPath"
    and "os_Lstat sys absPluginPath = Some fileInfo"
    and "IsSymlink fileInfo"
  shows "\<exists>err. executePlugin nodeConf sys plugin option p = (Inl err, p)
           \<and> PathSecurityError err
           \<and> (err = SymlinkError absPluginPath \<or> err = AbsFolderError
                \<or> (\<exists>dir. err = OutsideFolder dir))"
proof -
  let ?pluginPath = "filepath_Join [PluginFolder nodeConf, plugin]"
  have "validatePluginPath nodeConf sys ?pluginPath = Some (SymlinkError absPluginPath)
      \<or> validatePluginPath nodeConf sys ?pluginPath = Some AbsFolderError
      \<or> (\<exists>dir. validatePluginPath nodeConf sys ?pluginPath = Some (OutsideFolder dir))"
    using assms by (cases "filepath_Abs (os_Getwd sys) (PluginFolder nodeConf)")
      (simp_all add: validatePluginPath_def)
  then show ?thesis
    by (auto simp: executePlugin_def Let_def)
qed

theorem executePlugin_symlink_witness:
  "\<exists>err. executePlugin example_conf (example_os []) ''link'' ''config'' fresh = (Inl err, fresh)
      \<and> PathSecurityError err
      \<and> (err = SymlinkError ''/plugins/link'' \<or> err = AbsFolderError
            \<or> (\<exists>dir. err = OutsideFolder dir))"
proof -
  have a: "filepath_Abs (os_Getwd (example_os []))
             (filepath_Join [PluginFolder example_conf, ''link'']) = Some ''/plugins/link''"
    by code_simp
  have b: "os_Lstat (example_os []) ''/plugins/link''
             = Some \<lparr>Name = ''link'', IsDir = False, IsSymlink = True\<rparr>"
    by (simp add: example_os_def)
  have c: "IsSymlink \<lparr>Name = ''link'', IsDir = False, IsSymlink = True\<rparr>" by simp
  show ?thesis
    by (rule executePlugin_symlink [OF a b c])
qed

text \<open>
  Claim C1 asks that the candidate path lies in the plugin directory as a prefix of path
  segments, so that nothing outside the directory is run. The code tests
  \<open>strings.HasPrefix\<close> on the two absolute paths: with the plugin directory \<open>/plugins\<close>,
  the plugin name \<open>../plugins-evil/x\<close> gives the path \<open>/plugins-evil/x\<close>, which passes
  the test, and the file in the sibling directory is run.
\<close>

theorem executePlugin_sibling_directory:
  "filepath_Join [PluginFolder example_conf, ''../plugins-evil/x''] = ''/plugins-evil/x''
   \<and> validatePluginPath example_conf (example_os []) ''/plugins-evil/x'' = None
   \<and> fst (executePlugin example_conf (example_os []) ''../plugins-evil/x'' [] fresh)
       = Inr (''outside'' @ [NL])
   \<and> spawned (snd (executePlugin example_conf (example_os []) ''../plugins-evil/x'' [] fresh))
       = [(''/plugins-evil/x'', [])]"
  by code_simp

subsection \<open>The reply to list\<close>

text \<open>
  Claim C8 asks that \<open>list\<close> on a directory with the files \<open>cpu\<close> and \<open>memory\<close> is
  answered with \<open>cpu memory\<close> and one newline. \<open>listPlugins\<close> returns exactly that, and
  the handler writes it with \<open>Fprintln\<close>, which adds a second newline: after the
  banner, the connection carries \<open>cpu memory\<close> and two newlines.
\<close>

theorem list_reply_two_newlines:
  "fst (handleConnection example_conf two_plugins_os (''list'' @ [NL]) fresh)
     = ''# munin node at node1'' @ [NL] @ ''cpu memory'' @ [NL, NL]
   \<and> fst (handleCommand example_conf two_plugins_os ''list'' fresh)
     = Some (''cpu memory'' @ [NL, NL])
   \<and> listPlugins example_conf two_plugins_os = ''cpu memory'' @ [NL]"
  by code_simp

subsection \<open>Scanning the plugin configuration\<close>

text \<open>
  Claim C4 asks that no section is open after a header that matches no candidate. The
  loop leaves \<open>currentSection\<close> as it was at such a header: for the plugin \<open>cpu\<close>, the
  assignment \<open>env.B 2\<close> under the header \<open>[other]\<close> is applied, because \<open>[*]\<close> was
  open before.
\<close>

theorem section_stays_open:
  "fst (loadPluginConfig example_conf
          (example_os (''[*]'' @ [NL] @ ''env.A 1'' @ [NL] @ ''[other]'' @ [NL] @ ''env.B 2'' @ [NL]))
          ''cpu'' fresh) = None
   \<and> ''other'' \<notin> set (generatePossibleSections ''cpu'')
   \<and> environ (snd (loadPluginConfig example_conf
          (example_os (''[*]'' @ [NL] @ ''env.A 1'' @ [NL] @ ''[other]'' @ [NL] @ ''env.B 2'' @ [NL]))
          ''cpu'' fresh)) ''B'' = Some ''2''"
  by code_simp

lemma os_Setenv_uniform:
  "(\<forall>e. os_Setenv k v e = None) \<or> (\<forall>e. os_Setenv k v e = Some (e(k \<mapsto> v)))"
  by (auto simp: os_Setenv_def)

lemma config_line_delta:
  "\<exists>r d. \<forall>p. config_line secs t cur p = (r, p\<lparr>environ := environ p ++ d\<rparr>)"
proof -
  define line where "line = strings_TrimSpace t"
  define skip where "skip \<longleftrightarrow> line = [] \<or> strings_HasPrefix line ''#''"
  define header where "header \<longleftrightarrow> strings_HasPrefix line ''['' \<and> strings_HasSuffix line '']''"
  define assign where "assign \<longleftrightarrow> cur \<noteq> [] \<and> strings_HasPrefix line ''env.''"
  define parts where "parts = strings_SplitN2 line CHR '' ''"
  define k where "k = strings_TrimPrefix (parts ! 0) ''env.''"
  define v where "v = strings_TrimSpace (parts ! 1)"
  have eq: "config_line secs t cur p =
      (if skip then (Inr cur, p)
       else if header then (Inr (section_loop secs (butlast (tl line)) cur), p)
       else if assign then
         (if length parts \<noteq> 2 then (Inl (InvalidFormat line), p)
          else (case os_Setenv k v (environ p) of
                  None \<Rightarrow> (Inl SetenvError, p)
                | Some env \<Rightarrow> (Inr cur, p\<lparr>environ := env\<rparr>)))
       else (Inr cur, p))" for p
    by (simp add: config_line_def Let_def line_def skip_def header_def assign_def parts_def
        k_def v_def)
  have same: "p = p\<lparr>environ := environ p ++ Map.empty\<rparr>" for p :: process
    by simp
  consider (set) "\<not> skip" "\<not> header" "assign" "length parts = 2"
      "\<forall>e. os_Setenv k v e = Some (e(k \<mapsto> v))"
    | (fail) "\<not> skip" "\<not> header" "assign" "length parts = 2" "\<forall>e. os_Setenv k v e = None"
    | (other) "skip \<or> header \<or> \<not> assign \<or> length parts \<noteq> 2"
    using os_Setenv_uniform [of k v] by blast
  then show ?thesis
  proof cases
    case set
    then have "\<forall>p. config_line secs t cur p = (Inr cur, p\<lparr>environ := environ p ++ [k \<mapsto> v]\<rparr>)"
      by (simp add: eq)
    then show ?thesis by blast
  next
    case fail
    then have "\<forall>p. config_line secs t cur p = (Inl SetenvError, p\<lparr>environ := environ p ++ Map.empty\<rparr>)"
      by (simp add: eq)
    then show ?thesis by blast
  next
    case other
    then have "\<forall>p. config_line secs t cur p =
        (if skip then Inr cur
         else if header then Inr (section_loop secs (butlast (tl line)) cur)
         else if assign then Inl (InvalidFormat line) else Inr cur,
         p\<lparr>environ := environ p ++ Map.empty\<rparr>)"
      by (auto simp add: eq)
    then show ?thesis by blast
  qed
qed

lemma config_loop_delta:
  "\<exists>r d. \<forall>p. config_loop secs ts cur p = (r, p\<lparr>environ := environ p ++ d\<rparr>)"
proof (induction ts arbitrary: cur)
  case Nil
  have "\<forall>p. config_loop secs [] cur p = (Inr cur, p\<lparr>environ := environ p ++ Map.empty\<rparr>)"
    by simp
  then show ?case by blast
next
  case (Cons t ts)
  obtain r1 d1 where l: "\<And>p. config_line secs t cur p = (r1, p\<lparr>environ := environ p ++ d1\<rparr>)"
    using config_line_delta [of secs t cur] by blast
  show ?case
  proof (cases r1)
    case (Inl err)
    with l have "\<forall>p. config_loop secs (t # ts) cur p = (Inl err, p\<lparr>environ := environ p ++ d1\<rparr>)"
      by simp
    then show ?thesis by blast
  next
    case (Inr sec)
    obtain r2 d2 where
      r: "\<And>p. config_loop secs ts sec p = (r2, p\<lparr>environ := environ p ++ d2\<rparr>)"
      using Cons.IH [of sec] by blast
    from Inr l r
    have "\<forall>p. config_loop secs (t # ts) cur p = (r2, p\<lparr>environ := environ p ++ (d1 ++ d2)\<rparr>)"
      by simp
    then show ?thesis by blast
  qed
qed

lemma loadPluginConfig_delta:
  "\<exists>r d. \<forall>p. loadPluginConfig nodeConf sys plugin p = (r, p\<lparr>environ := environ p ++ d\<rparr>)"
proof (cases "filepath_Abs (os_Getwd sys) (PluginConfig nodeConf)")
  case None
  then have "\<forall>p. loadPluginConfig nodeConf sys plugin p
               = (Some AbsConfigError, p\<lparr>environ := environ p ++ Map.empty\<rparr>)"
    by (simp add: loadPluginConfig_def)
  then show ?thesis by blast
next
  case (Some conf)
  show ?thesis
  proof (cases "os_Open sys conf")
    case None
    with Some have "\<forall>p. loadPluginConfig nodeConf sys plugin p
               = (Some OpenError, p\<lparr>environ := environ p ++ Map.empty\<rparr>)"
      by (simp add: loadPluginConfig_def)
    then show ?thesis by blast
  next
    case (Some opened)
    obtain data read_err where f: "opened = (data, read_err)" by (cases opened)
    obtain lines too_long where sc: "scan_lines MaxScanTokenSize data = (lines, too_long)"
      by (cases "scan_lines MaxScanTokenSize data")
    obtain r d where
      l: "\<And>p. config_loop (generatePossibleSections plugin) lines [] p
              = (r, p\<lparr>environ := environ p ++ d\<rparr>)"
      using config_loop_delta [of "generatePossibleSections plugin" lines "[]"] by blast
    from \<open>filepath_Abs (os_Getwd sys) (PluginConfig nodeConf) = Some conf\<close> Some f sc l
    have "\<forall>p. loadPluginConfig nodeConf sys plugin p
            = ((case r of Inl err \<Rightarrow> Some err
                | Inr sec \<Rightarrow> if too_long \<or> read_err then Some ReadError else None),
               p\<lparr>environ := environ p ++ d\<rparr>)"
      by (cases r) (simp_all add: loadPluginConfig_def Let_def)
    then show ?thesis by blast
  qed
qed




lemma loadPluginConfig_spawned: "spawned (snd (loadPluginConfig nodeConf sys plugin p)) = spawned p"
proof -
  obtain r d where "loadPluginConfig nodeConf sys plugin p = (r, p\<lparr>environ := environ p ++ d\<rparr>)"
    using loadPluginConfig_delta [of nodeConf sys plugin] by blast
  then show ?thesis by simp
qed

text \<open>
  Claim C2 asks that the variables resolved for one invocation reach only that
  invocation's subprocess. \<open>loadPluginConfig\<close> writes them with \<open>os.Setenv\<close> into the
  environment table of the node's own process, and every subprocess inherits that table.
  With the section \<open>[cpu_*]\<close> setting \<open>A\<close>, a client that sends \<open>fetch cpu\<close> and then
  \<open>fetch memory\<close> gets \<open>A=1\<close> from \<open>memory\<close> as well, although \<open>cpu_*\<close> is no candidate
  section of \<open>memory\<close> and \<open>memory\<close> asked first sees no \<open>A\<close>: executing \<open>cpu\<close> has
  changed the table they share.
\<close>

theorem environment_leaks_between_invocations:
  "''cpu_*'' \<notin> set (generatePossibleSections ''memory'')
   \<and> fst (executePlugin example_conf (example_os cpu_section) ''memory'' [] fresh)
     = Inr (''A=unset'' @ [NL])
   \<and> fst (executePlugin example_conf (example_os cpu_section) ''memory'' []
            (snd (executePlugin example_conf (example_os cpu_section) ''cpu'' [] fresh)))
     = Inr (''A=1'' @ [NL])
   \<and> environ fresh ''A'' = None
   \<and> environ (snd (executePlugin example_conf (example_os cpu_section) ''cpu'' [] fresh)) ''A''
     = Some ''1''
   \<and> fst (handleConnection example_conf (example_os cpu_section)
            (''fetch memory'' @ [NL]) fresh)
     = ''# munin node at node1'' @ [NL] @ ''A=unset'' @ [NL] @ ''.'' @ [NL]
   \<and> fst (handleConnection example_conf (example_os cpu_section)
            (''fetch cpu'' @ [NL] @ ''fetch memory'' @ [NL]) fresh)
     = ''# munin node at node1'' @ [NL] @ ''A=1'' @ [NL] @ ''.'' @ [NL]
         @ ''A=1'' @ [NL] @ ''.'' @ [NL]"
  by code_simp




subsection \<open>Section headers and candidate sections\<close>

lemma candidates_shape:
  "c \<in> set (generatePossibleSections plugin) \<Longrightarrow> c = ''*'' \<or> strings_HasSuffix c ''_*''"
  by (auto simp: generatePossibleSections_def Let_def sections_loop_eq strings_HasSuffix_def
      suffix_def)

lemma section_loop_no_match:
  "section \<notin> set secs \<Longrightarrow> section_loop secs section cur = cur"
  by (induction secs) auto

lemma config_line_closed:
  assumes "strings_HasPrefix (strings_TrimSpace t) ''['' \<and> strings_HasSuffix (strings_TrimSpace t) '']''
             \<longrightarrow> butlast (tl (strings_TrimSpace t)) \<notin> set secs"
  shows "config_line secs t [] p = (Inr [], p)"
  using assms by (auto simp: config_line_def Let_def section_loop_no_match)

lemma config_loop_closed:
  assumes "\<forall>t\<in>set ts. strings_HasPrefix (strings_TrimSpace t) ''[''
              \<and> strings_HasSuffix (strings_TrimSpace t) '']''
             \<longrightarrow> butlast (tl (strings_TrimSpace t)) \<notin> set secs"
  shows "config_loop secs ts [] p = (Inr [], p)"
  using assms by (induction ts) (simp_all add: config_line_closed)

text \<open>
  Claim C10, as amended. Every candidate section of a plugin is \<open>*\<close> or ends in \<open>_*\<close>.
  So a plugin name that is not \<open>*\<close> and does not end in \<open>_*\<close> is not among its own
  candidates, and a configuration whose only section headers are the plugin's name in
  brackets opens no section: scanning it leaves the environment as it was.
\<close>

theorem header_equal_to_plugin_name:
  "(\<forall>c\<in>set (generatePossibleSections plugin). c = ''*'' \<or> strings_HasSuffix c ''_*'')
   \<and> (plugin \<noteq> ''*'' \<and> \<not> strings_HasSuffix plugin ''_*'' \<longrightarrow>
        plugin \<notin> set (generatePossibleSections plugin)
        \<and> ((\<forall>t\<in>set lines.
               strings_HasPrefix (strings_TrimSpace t) ''[''
                 \<and> strings_HasSuffix (strings_TrimSpace t) '']''
               \<longrightarrow> strings_TrimSpace t = ''['' @ plugin @ '']'')
             \<longrightarrow> config_loop (generatePossibleSections plugin) lines [] p = (Inr [], p)))"
proof (intro conjI impI ballI)
  fix c assume "c \<in> set (generatePossibleSections plugin)"
  then show "c = ''*'' \<or> strings_HasSuffix c ''_*''" by (rule candidates_shape)
next
  assume a: "plugin \<noteq> ''*'' \<and> \<not> strings_HasSuffix plugin ''_*''"
  then show n: "plugin \<notin> set (generatePossibleSections plugin)"
    using candidates_shape [of plugin plugin] by blast
  assume h: "\<forall>t\<in>set lines.
               strings_HasPrefix (strings_TrimSpace t) ''[''
                 \<and> strings_HasSuffix (strings_TrimSpace t) '']''
               \<longrightarrow> strings_TrimSpace t = ''['' @ plugin @ '']''"
  have "\<forall>t\<in>set lines. strings_HasPrefix (strings_TrimSpace t) ''[''
              \<and> strings_HasSuffix (strings_TrimSpace t) '']''
             \<longrightarrow> butlast (tl (strings_TrimSpace t)) \<notin> set (generatePossibleSections plugin)"
  proof (intro ballI impI)
    fix t assume "t \<in> set lines"
      and "strings_HasPrefix (strings_TrimSpace t) ''[''
              \<and> strings_HasSuffix (strings_TrimSpace t) '']''"
    with h have "strings_TrimSpace t = ''['' @ plugin @ '']''" by blast
    then have "butlast (tl (strings_TrimSpace t)) = plugin"
      by (simp add: butlast_append)
    with n show "butlast (tl (strings_TrimSpace t)) \<notin> set (generatePossibleSections plugin)"
      by simp
  qed
  then show "config_loop (generatePossibleSections plugin) lines [] p = (Inr [], p)"
    by (rule config_loop_closed)
qed

theorem header_equal_to_plugin_name_witness:
  "''diskio_sda'' \<notin> set (generatePossibleSections ''diskio_sda'')
   \<and> config_loop (generatePossibleSections ''diskio_sda'') [''[diskio_sda]'', ''env.A 1''] [] fresh
       = (Inr [], fresh)"
proof -
  have a: "''diskio_sda'' \<noteq> ''*'' \<and> \<not> strings_HasSuffix ''diskio_sda'' ''_*''"
    by code_simp
  have b: "\<forall>t\<in>set [''[diskio_sda]'', ''env.A 1''].
               strings_HasPrefix (strings_TrimSpace t) ''[''
                 \<and> strings_HasSuffix (strings_TrimSpace t) '']''
               \<longrightarrow> strings_TrimSpace t = ''['' @ ''diskio_sda'' @ '']''"
    by code_simp
  from header_equal_to_plugin_name [of "''diskio_sda''" "[''[diskio_sda]'', ''env.A 1'']" fresh] a b
  show ?thesis by blast
qed

text \<open>The claim as stated fails for the plugin name \<open>*\<close>: the header \<open>[*]\<close> is the
  plugin's name, it is a candidate, and the assignment under it reaches the plugin.\<close>

theorem header_equal_to_plugin_name_counterexample:
  "''*'' \<in> set (generatePossibleSections ''*'')
   \<and> fst (loadPluginConfig example_conf (example_os (''[*]'' @ [NL] @ ''env.A 1'' @ [NL])) ''*'' fresh)
       = None
   \<and> environ (snd (loadPluginConfig example_conf
        (example_os (''[*]'' @ [NL] @ ''env.A 1'' @ [NL])) ''*'' fresh)) ''A'' = Some ''1''
   \<and> fst (executePlugin example_conf (example_os (''[*]'' @ [NL] @ ''env.A 1'' @ [NL])) ''*'' [] fresh)
       = Inr (''A=1'' @ [NL])"
  by code_simp

subsection \<open>The access guard\<close>

lemma isAllowedIP_fst:
  "fst (isAllowedIP M clientIP patterns) = (\<exists>pattern\<in>set patterns. M pattern clientIP = Inr True)"
  by (induction patterns) (auto split: sum.splits prod.splits)

lemma isAllowedIP_snd:
  "snd (isAllowedIP M clientIP patterns) = printed_errors M clientIP patterns"
  by (induction patterns) (auto simp: printed_errors_def split: sum.splits prod.splits)

text \<open>
  Claim C7. \<open>isAllowedIP\<close> returns true exactly when \<open>regexp.MatchString\<close> reports a
  match of some pattern of the list in the address; it prints an error for each pattern
  that does not compile before the first match and for no pattern after it, so the list
  is scanned in order up to the first match; a pattern that does not compile is skipped,
  the result being that of the rest of the list; and the empty list gives false.
\<close>

theorem isAllowedIP_first_match:
  "fst (isAllowedIP M clientIP patterns) = (\<exists>pattern\<in>set patterns. M pattern clientIP = Inr True)
   \<and> snd (isAllowedIP M clientIP patterns) = printed_errors M clientIP patterns
   \<and> (\<forall>err. M pattern clientIP = Inl err \<longrightarrow>
         fst (isAllowedIP M clientIP (pattern # patterns)) = fst (isAllowedIP M clientIP patterns))
   \<and> fst (isAllowedIP M clientIP []) = False"
proof (intro conjI allI impI)
  show "fst (isAllowedIP M clientIP patterns)
          = (\<exists>pattern\<in>set patterns. M pattern clientIP = Inr True)"
    by (rule isAllowedIP_fst)
  show "snd (isAllowedIP M clientIP patterns) = printed_errors M clientIP patterns"
    by (rule isAllowedIP_snd)
  show "fst (isAllowedIP M clientIP []) = False" by simp
next
  fix err assume "M pattern clientIP = Inl err"
  then show "fst (isAllowedIP M clientIP (pattern # patterns))
               = fst (isAllowedIP M clientIP patterns)"
    by (simp split: prod.splits)
qed

theorem isAllowedIP_first_match_witness:
  "fst (isAllowedIP literal_match ''192.168.1.5'' [''(10'', ''10.0.'', ''192.168.'', ''(''])
   \<and> snd (isAllowedIP literal_match ''192.168.1.5'' [''(10'', ''10.0.'', ''192.168.'', ''(''])
       = [''Error in IP permission template: missing closing )'' @ [NL]]
   \<and> fst (isAllowedIP literal_match ''192.168.1.5'' [''(10'', ''192.168.''])
       = fst (isAllowedIP literal_match ''192.168.1.5'' [''192.168.''])
   \<and> \<not> fst (isAllowedIP literal_match ''10.0.0.9'' [''192.168.''])"
proof -
  let ?ps = "[''(10'', ''10.0.'', ''192.168.'', ''('']"
  have m: "\<exists>pattern\<in>set ?ps. literal_match pattern ''192.168.1.5'' = Inr True"
    by code_simp
  have p: "printed_errors literal_match ''192.168.1.5'' ?ps
             = [''Error in IP permission template: missing closing )'' @ [NL]]"
    by code_simp
  have e: "literal_match ''(10'' ''192.168.1.5'' = Inl ''missing closing )''"
    by code_simp
  have n: "\<not> (\<exists>pattern\<in>set [''192.168.'']. literal_match pattern ''10.0.0.9'' = Inr True)"
    by code_simp
  from isAllowedIP_first_match [of literal_match "''192.168.1.5''" ?ps] m p
  have 1: "fst (isAllowedIP literal_match ''192.168.1.5'' ?ps)"
    and 2: "snd (isAllowedIP literal_match ''192.168.1.5'' ?ps)
       = [''Error in IP permission template: missing closing )'' @ [NL]]"
    by simp_all
  from isAllowedIP_first_match [of literal_match "''192.168.1.5''" "[''192.168.'']" "''(10''"] e
  have 3: "fst (isAllowedIP literal_match ''192.168.1.5'' [''(10'', ''192.168.''])
       = fst (isAllowedIP literal_match ''192.168.1.5'' [''192.168.''])"
    by blast
  from isAllowedIP_first_match [of literal_match "''10.0.0.9''" "[''192.168.'']"] n
  have 4: "\<not> fst (isAllowedIP literal_match ''10.0.0.9'' [''192.168.''])"
    by blast
  from 1 2 3 4 show ?thesis by blast
qed

subsection \<open>The replies to config and fetch\<close>

lemma split_byte_free_eq: "c \<notin> set ys \<Longrightarrow> split_byte c ys = [ys]"
  by (induction ys) (auto simp: Let_def)

lemma split_byte_append_free:
  "c \<notin> set ys \<Longrightarrow>
   split_byte c (xs @ ys) = butlast (split_byte c xs) @ [last (split_byte c xs) @ ys]"
proof (induction xs)
  case Nil
  then show ?case by (simp add: split_byte_free_eq)
next
  case (Cons x xs)
  obtain s T where r: "split_byte c xs = s # T"
    using split_byte_not_Nil [of c xs] by (cases "split_byte c xs") auto
  with Cons show ?case
    by (cases T) (auto simp: Let_def)
qed

lemma split_byte_single_Nil: "split_byte c xs = [[]] \<Longrightarrow> xs = []"
  using join_split_byte [of c xs] by simp

lemma last_split_byte_Nil:
  "last (split_byte c xs) = [] \<longleftrightarrow> xs = [] \<or> last xs = c"
proof (induction xs)
  case Nil
  then show ?case by simp
next
  case (Cons x xs)
  obtain s T where r: "split_byte c xs = s # T"
    using split_byte_not_Nil [of c xs] by (cases "split_byte c xs") auto
  show ?case
  proof (cases "x = c")
    case True
    with Cons r show ?thesis by (cases xs) auto
  next
    case False
    show ?thesis
    proof (cases T)
      case Nil
      have "xs \<noteq> [] \<Longrightarrow> last xs \<noteq> c"
      proof
        assume "xs \<noteq> []" and "last xs = c"
        with Cons r Nil have "split_byte c xs = [[]]" by simp
        then have "xs = []" by (rule split_byte_single_Nil)
        with \<open>xs \<noteq> []\<close> show False by simp
      qed
      with False r Nil show ?thesis by (cases xs) (auto simp: Let_def)
    next
      case (Cons t T')
      with False r Cons.IH show ?thesis by (cases xs) (auto simp: Let_def)
    qed
  qed
qed

lemma ends_with_dot_line_output:
  "ends_with_dot_line (output @ Fprintln ''.'') \<longleftrightarrow> output = [] \<or> last output = NL"
proof -
  have "NL \<notin> set ''.''" by (simp add: NL_def)
  then have "last (split_byte NL (output @ ''.'')) = last (split_byte NL output) @ ''.''"
    by (simp add: split_byte_append_free)
  then show ?thesis
    by (simp add: ends_with_dot_line_def Fprintln_def strings_Split_def butlast_append
        last_split_byte_Nil)
qed

lemma ends_with_dot_line_unknown:
  "ends_with_dot_line (Fprintln (''# Unknown service'' @ [NL] @ ''.''))"
  by code_simp

text \<open>What the handler writes for \<open>config\<close> and \<open>fetch\<close>, and when it ends with a line
  that holds only a dot.\<close>

lemma config_fetch_reply:
  assumes "strings_Fields line = cmd # args"
    and "cmd = ''config'' \<or> cmd = ''fetch''"
    and "executePlugin nodeConf sys (if args = [] then [] else hd args)
           (if cmd = ''config'' then ''config'' else []) p = (res, p')"
  shows "\<exists>reply. handleCommand nodeConf sys line p = (Some reply, p')
           \<and> reply = (case res of
                          Inl err \<Rightarrow> ''# Unknown service'' @ [NL] @ ''.'' @ [NL]
                        | Inr output \<Rightarrow> output @ ''.'' @ [NL])
           \<and> (ends_with_dot_line reply \<longleftrightarrow>
                (\<forall>output. res = Inr output \<longrightarrow> output = [] \<or> last output = NL))"
proof -
  have reply: "handleCommand nodeConf sys line p =
      (case res of
         Inl err \<Rightarrow> (Some (Fprintln (''# Unknown service'' @ [NL] @ ''.'')), p')
       | Inr out \<Rightarrow> (Some (out @ Fprintln ''.''), p'))"
  proof (cases "cmd = ''config''")
    case True
    with assms(1,3) show ?thesis
      by (cases args; cases res) (simp_all add: handleCommand_def Let_def)
  next
    case False
    with assms(2) have "cmd = ''fetch''" by simp
    with assms(1,3) show ?thesis
      by (cases args; cases res) (simp_all add: handleCommand_def Let_def)
  qed
  show ?thesis
  proof (cases res)
    case (Inl err)
    with reply ends_with_dot_line_unknown show ?thesis by (simp add: Fprintln_def)
  next
    case (Inr out)
    with reply ends_with_dot_line_output [of out] show ?thesis by (simp add: Fprintln_def)
  qed
qed

text \<open>
  Claim C6 asks that the replies to \<open>config\<close> and \<open>fetch\<close> end with a line that holds
  only a dot, whether or not the plugin's output ends with a newline. The handler writes
  the output as it is and then \<open>Fprintln "."\<close>; where \<open>nodes\<close> and the reply to a failed
  plugin write a newline before the dot, this path writes none. For the plugin \<open>raw\<close>,
  whose output \<open>load.value 1\<close> has no newline at its end, the dot is glued to the last
  line of the output, and the reply does not end with a line of one dot.
\<close>

theorem config_fetch_reply_glued_dot:
  "fst (executePlugin example_conf (example_os []) ''raw'' [] fresh) = Inr ''load.value 1''
   \<and> fst (handleCommand example_conf (example_os []) ''fetch raw'' fresh)
       = Some (''load.value 1.'' @ [NL])
   \<and> fst (handleCommand example_conf (example_os []) ''config raw'' fresh)
       = Some (''load.value 1.'' @ [NL])
   \<and> \<not> ends_with_dot_line (''load.value 1.'' @ [NL])
   \<and> fst (handleCommand example_conf (example_os []) ''nodes'' fresh)
       = Some (''node1'' @ [NL] @ ''.'' @ [NL])
   \<and> fst (handleCommand example_conf (example_os []) ''fetch missing'' fresh)
       = Some (''# Unknown service'' @ [NL] @ ''.'' @ [NL])"
  by code_simp

end
